theory Spec2Isabelle
  imports Main "HOL-Library.Sublist"
begin

section \<open>The webmention receiver of \<^verbatim>\<open>src/index.js\<close>\<close>

text \<open>
  The receiver keeps three process-wide variables: \<^verbatim>\<open>queue\<close> (pending mentions),
  \<^verbatim>\<open>received.webmentions\<close> (the verified notifications) and \<^verbatim>\<open>failures\<close> (failed
  validations per source). They are the fields of the record \<open>state\<close> below, which every
  operation takes and returns. A fourth field, \<open>writes\<close>, logs each call of
  \<^verbatim>\<open>writeFile\<close> in order, with the file it goes to and the value that is serialised.

  JavaScript strings are modelled as \<^typ>\<open>string\<close>, compared by \<open>=\<close> as \<^verbatim>\<open>===\<close> compares
  them (element by element); numbers are \<^typ>\<open>int\<close>; \<^verbatim>\<open>Date.now()\<close> is the argument
  \<open>now\<close> of the operation that reads the clock.
\<close>

subsection \<open>Data\<close>

text \<open>The object \<^verbatim>\<open>{ source, target }\<close> that \<^verbatim>\<open>toMention\<close> builds and the queue holds.\<close>

record mention =
  source :: string
  target :: string

text \<open>
  An element of \<^verbatim>\<open>received.webmentions\<close>: the mention's fields (\<^verbatim>\<open>...mention\<close>) and the
  properties the verifier assigns. A property that an object may lack is an option.
\<close>

record entry = mention +
  validated :: bool
  mentioned :: "bool option"
  isMentioned :: "bool option"
  deleted :: "bool option"
  validatedAt :: int

datatype "write" =
  MentionsFile "entry list"
| FailureFile "string \<rightharpoonup> int"

record state =
  queue :: "mention list"
  webmentions :: "entry list"
  failures :: "string \<rightharpoonup> int"
  writes :: "write list"

text \<open>
  The incoming request as the validator reads it: \<^verbatim>\<open>request.method\<close> and
  \<^verbatim>\<open>request.headers\<close>, an object from header names to values that may be absent.
\<close>

record request =
  "method" :: string
  headers :: "(string \<rightharpoonup> string) option"

text \<open>
  What \<^verbatim>\<open>fetch\<close> resolves to: the status and the outcome of \<^verbatim>\<open>response.text()\<close>, which
  is \<open>None\<close> when reading the body rejects. A rejected \<^verbatim>\<open>fetch\<close> is caught and leaves
  \<^verbatim>\<open>response\<close> undefined: the verifier takes a \<open>response option\<close>.
\<close>

record response =
  status :: nat
  text_of :: "string option"

datatype error = TypeError | ReferenceError | BodyError

subsection \<open>String helpers\<close>

definition startsWith :: "string \<Rightarrow> string \<Rightarrow> bool" where
  "startsWith s p = prefix p s"

definition includes_str :: "string \<Rightarrow> string \<Rightarrow> bool" where
  "includes_str s t = sublist t s"

subsection \<open>Request validation\<close>

definition DEBUG :: bool where
  "DEBUG = False"

text \<open>
  A rule of \<^verbatim>\<open>BAD_REQUEST_PREDICATES\<close> reads the request and the mention, which is
  \<^verbatim>\<open>null\<close> when \<^verbatim>\<open>toMention\<close> found no pair. Reading a property of \<^verbatim>\<open>null\<close> or
  \<^verbatim>\<open>undefined\<close> throws a \<^verbatim>\<open>TypeError\<close>, so a rule returns \<open>error + bool\<close>.
  \<^verbatim>\<open>URL.canParse\<close> is the platform's URL parser and \<^verbatim>\<open>ALLOWED_TARGET_BASE_URLS\<close> is
  read from a file at startup: both are parameters.
\<close>

type_synonym rule = "request \<Rightarrow> mention option \<Rightarrow> error + bool"

definition on_mention :: "(mention \<Rightarrow> bool) \<Rightarrow> mention option \<Rightarrow> error + bool" where
  "on_mention p mo = (case mo of None \<Rightarrow> Inl TypeError | Some m \<Rightarrow> Inr (p m))"

definition BAD_REQUEST_PREDICATES :: "(string \<Rightarrow> bool) \<Rightarrow> string list \<Rightarrow> rule list" where
  "BAD_REQUEST_PREDICATES canParse allowed =
    [ \<lambda>r mo. Inr (method r \<noteq> ''POST''),
      \<lambda>r mo. Inr (headers r = None),
      \<lambda>r mo. (case headers r of
                 None \<Rightarrow> Inl TypeError
               | Some h \<Rightarrow> Inr (h ''content-type'' \<noteq> Some ''application/x-www-form-urlencoded'')),
      \<lambda>r mo. Inr (mo = None),
      \<lambda>r. on_mention (\<lambda>m. target m = source m),
      \<lambda>r. on_mention (\<lambda>m. \<not> canParse (source m)),
      \<lambda>r. on_mention (\<lambda>m. \<not> canParse (target m)),
      \<lambda>r. on_mention (\<lambda>m. length allowed > 0
                            \<and> \<not> list_ex (\<lambda>allowedBaseUrl. startsWith (target m) allowedBaseUrl) allowed),
      \<lambda>r. on_mention (\<lambda>m. \<not> (startsWith (target m) ''https://''
                               \<or> startsWith (target m) ''http://'')) ]"

text \<open>
  \<^verbatim>\<open>Array.prototype.some\<close>: the rules are called in order, the first that returns true
  ends the search, and a rule that throws ends it with the exception.
\<close>

fun some :: "rule list \<Rightarrow> request \<Rightarrow> mention option \<Rightarrow> error + bool" where
  "some [] r mo = Inr False"
| "some (isBad # rest) r mo =
    (case isBad r mo of
       Inl e \<Rightarrow> Inl e
     | Inr True \<Rightarrow> Inr True
     | Inr False \<Rightarrow> some rest r mo)"

text \<open>
  The diagnostic branch of \<^verbatim>\<open>isValid\<close> reads the variable \<^verbatim>\<open>payload\<close>, which is not
  declared in that scope: entering it throws a \<^verbatim>\<open>ReferenceError\<close>.
\<close>

definition isValid ::
  "(string \<Rightarrow> bool) \<Rightarrow> string list \<Rightarrow> request \<Rightarrow> mention option \<Rightarrow> error + bool" where
  "isValid canParse allowed r mo =
    (case some (BAD_REQUEST_PREDICATES canParse allowed) r mo of
       Inl e \<Rightarrow> Inl e
     | Inr isBadRequest \<Rightarrow>
         if isBadRequest \<and> DEBUG then Inl ReferenceError
         else Inr (\<not> isBadRequest))"

text \<open>
  \<^verbatim>\<open>URLSearchParams\<close> is the platform's parser of form bodies; \<open>parse\<close> stands for it and
  gives the name/value pairs in order. \<^verbatim>\<open>get\<close> returns the value of the first pair with
  the name, or \<^verbatim>\<open>null\<close>.
\<close>

fun get :: "(string \<times> string) list \<Rightarrow> string \<Rightarrow> string option" where
  "get [] name = None"
| "get ((k, v) # rest) name = (if k = name then Some v else get rest name)"

text \<open>\<^verbatim>\<open>!x\<close> for a string or \<^verbatim>\<open>null\<close>: true for \<^verbatim>\<open>null\<close> and for the empty string.\<close>

fun falsy :: "string option \<Rightarrow> bool" where
  "falsy None = True"
| "falsy (Some s) = (s = [])"

definition toMention :: "(string \<Rightarrow> (string \<times> string) list) \<Rightarrow> string \<Rightarrow> mention option" where
  "toMention parse body =
    (let payload = parse body in
     if falsy (get payload ''source'') \<or> falsy (get payload ''target'') then None
     else (case (get payload ''source'', get payload ''target'') of
             (Some s, Some t) \<Rightarrow> Some \<lparr> source = s, target = t \<rparr>
           | _ \<Rightarrow> None))"

subsection \<open>Admission\<close>

definition isDuplicate :: "mention \<Rightarrow> 'a mention_scheme \<Rightarrow> bool" where
  "isDuplicate m existing = (source existing = source m \<and> target existing = target m)"

definition isEnqueueable :: "int \<Rightarrow> state \<Rightarrow> mention \<Rightarrow> bool" where
  "isEnqueueable now st m =
    (case find (isDuplicate m) (queue st) of
       Some alreadyEnqueued \<Rightarrow> False
     | None \<Rightarrow>
        (if (case failures st (source m) of
               None \<Rightarrow> False
             | Some failedValidations \<Rightarrow> failedValidations \<noteq> 0 \<and> failedValidations > 5)
         then False
         else (case find (isDuplicate m) (webmentions st) of
                 Some alreadyValidated \<Rightarrow>
                   (if now - validatedAt alreadyValidated < 24 * 60 * 60 * 1000 then False
                    else True)
               | None \<Rightarrow> True)))"

text \<open>
  The request handler, after the body has arrived: the response status and the new
  state. An exception in the handler is caught and answered with 500.
\<close>

definition handler ::
  "(string \<Rightarrow> bool) \<Rightarrow> string list \<Rightarrow> (string \<Rightarrow> (string \<times> string) list) \<Rightarrow> int
     \<Rightarrow> request \<Rightarrow> string \<Rightarrow> state \<Rightarrow> nat \<times> state" where
  "handler canParse allowed parse now r body st =
    (let mo = toMention parse body in
     case isValid canParse allowed r mo of
       Inl e \<Rightarrow> (500, st)
     | Inr True \<Rightarrow>
        (case mo of
           None \<Rightarrow> (500, st)
         | Some m \<Rightarrow>
            if isEnqueueable now st m then (202, st\<lparr>queue := queue st @ [m]\<rparr>)
            else (500, st))
     | Inr False \<Rightarrow> (400, st))"

subsection \<open>Verification\<close>

text \<open>
  \<^verbatim>\<open>find\<close> returns the first matching object of the array and the verifier assigns to
  its properties: in the list, the first matching element is replaced.
\<close>

fun update_first :: "('a \<Rightarrow> bool) \<Rightarrow> ('a \<Rightarrow> 'a) \<Rightarrow> 'a list \<Rightarrow> 'a list" where
  "update_first P f [] = []"
| "update_first P f (x # xs) = (if P x then f x # xs else x # update_first P f xs)"

text \<open>\<^verbatim>\<open>response?.ok\<close> and \<^verbatim>\<open>response?.status === 410\<close>.\<close>

fun ok :: "response option \<Rightarrow> bool" where
  "ok None = False"
| "ok (Some r) = (200 \<le> status r \<and> status r \<le> 299)"

fun gone :: "response option \<Rightarrow> bool" where
  "gone None = False"
| "gone (Some r) = (status r = 410)"

text \<open>
  One run of \<^verbatim>\<open>validateMention\<close>: the new state, and the exception when the run ends
  with one (the queue has been shifted by then).
\<close>

definition validateMention :: "int \<Rightarrow> response option \<Rightarrow> state \<Rightarrow> state \<times> error option" where
  "validateMention now resp st =
    (case queue st of
       [] \<Rightarrow> (st, None)
     | m # rest \<Rightarrow>
        (let st1 = st\<lparr>queue := rest\<rparr> in
         if ok resp then
           (case Option.bind resp text_of of
              None \<Rightarrow> (st1, Some BodyError)
            | Some data \<Rightarrow>
               (let isM = includes_str data (target m);
                    ws = (case find (isDuplicate m) (webmentions st1) of
                            Some existing \<Rightarrow>
                              update_first (isDuplicate m)
                                (\<lambda>e. e\<lparr>validatedAt := now, isMentioned := Some isM\<rparr>)
                                (webmentions st1)
                          | None \<Rightarrow>
                              webmentions st1 @
                                [\<lparr> source = source m, target = target m, validated = True,
                                   mentioned = Some isM, isMentioned = None, deleted = None,
                                   validatedAt = now \<rparr>])
                in (st1\<lparr>webmentions := ws, writes := writes st1 @ [MentionsFile ws]\<rparr>, None)))
         else if gone resp then
           (let ws = (case find (isDuplicate m) (webmentions st1) of
                        Some existing \<Rightarrow>
                          update_first (isDuplicate m)
                            (\<lambda>e. e\<lparr>validatedAt := now, deleted := Some True\<rparr>)
                            (webmentions st1)
                      | None \<Rightarrow>
                          webmentions st1 @
                            [\<lparr> source = source m, target = target m, validated = True,
                               mentioned = None, isMentioned = None, deleted = Some True,
                               validatedAt = now \<rparr>])
            in (st1\<lparr>webmentions := ws, writes := writes st1 @ [MentionsFile ws]\<rparr>, None))
         else
           (let fs = (case failures st1 (source m) of
                        None \<Rightarrow> (failures st1)(source m \<mapsto> 1)
                      | Some n \<Rightarrow>
                          if n = 0 then (failures st1)(source m \<mapsto> 1)
                          else (failures st1)(source m \<mapsto> n + 1))
            in (st1\<lparr>failures := fs, writes := writes st1 @ [FailureFile fs]\<rparr>, None))))"

subsection \<open>The pipeline\<close>

text \<open>
  The two things that happen to the state: a request is handled, or the timer runs the
  verifier. Each carries what the environment supplies (the clock, the fetch outcome).
  A run of the verifier is taken as one step: the process is single-threaded, and the
  store and the counters are read and assigned in one turn, after the last \<^verbatim>\<open>await\<close>
  on the fetch.
\<close>

datatype event =
  Submit int request string
| Tick int "response option"

definition step ::
  "(string \<Rightarrow> bool) \<Rightarrow> string list \<Rightarrow> (string \<Rightarrow> (string \<times> string) list)
     \<Rightarrow> event \<Rightarrow> state \<Rightarrow> state" where
  "step canParse allowed parse ev st =
    (case ev of
       Submit now r body \<Rightarrow> snd (handler canParse allowed parse now r body st)
     | Tick now resp \<Rightarrow> fst (validateMention now resp st))"

fun run ::
  "(string \<Rightarrow> bool) \<Rightarrow> string list \<Rightarrow> (string \<Rightarrow> (string \<times> string) list)
     \<Rightarrow> event list \<Rightarrow> state \<Rightarrow> state" where
  "run canParse allowed parse [] st = st"
| "run canParse allowed parse (ev # evs) st =
     run canParse allowed parse evs (step canParse allowed parse ev st)"

subsection \<open>Notions used in the statements\<close>

text \<open>
  The identity of a stored notification is its (source, target) pair; the store is
  duplicate-free when no pair occurs twice.
\<close>

definition pairs :: "entry list \<Rightarrow> (string \<times> string) list" where
  "pairs ws = map (\<lambda>e. (source e, target e)) ws"

text \<open>The failure count of a source, reading a missing property as 0.\<close>

definition count :: "(string \<rightharpoonup> int) \<Rightarrow> string \<Rightarrow> int" where
  "count fs s = (case fs s of None \<Rightarrow> 0 | Some n \<Rightarrow> n)"

text \<open>
  The array \<^verbatim>\<open>received.webmentions\<close> after the 2xx branch and after the 410 branch of
  \<^verbatim>\<open>validateMention\<close>, as written there: named so that the lemmas can speak of them.
\<close>

definition store_ok :: "int \<Rightarrow> mention \<Rightarrow> string \<Rightarrow> entry list \<Rightarrow> entry list" where
  "store_ok now m data ws =
    (case find (isDuplicate m) ws of
       Some existing \<Rightarrow>
         update_first (isDuplicate m)
           (\<lambda>e. e\<lparr>validatedAt := now, isMentioned := Some (includes_str data (target m))\<rparr>) ws
     | None \<Rightarrow>
         ws @ [\<lparr> source = source m, target = target m, validated = True,
                mentioned = Some (includes_str data (target m)), isMentioned = None,
                deleted = None, validatedAt = now \<rparr>])"

definition store_gone :: "int \<Rightarrow> mention \<Rightarrow> entry list \<Rightarrow> entry list" where
  "store_gone now m ws =
    (case find (isDuplicate m) ws of
       Some existing \<Rightarrow>
         update_first (isDuplicate m) (\<lambda>e. e\<lparr>validatedAt := now, deleted := Some True\<rparr>) ws
     | None \<Rightarrow>
         ws @ [\<lparr> source = source m, target = target m, validated = True,
                mentioned = None, isMentioned = None, deleted = Some True,
                validatedAt = now \<rparr>])"

text \<open>
  The validator as the specification words it, to be compared with \<^verbatim>\<open>isValid\<close>. The
  scheme of a URL is what stands before its first colon, in lower case (schemes are
  case-insensitive); the media type of a content-type value is what stands before its
  parameters, in lower case.
\<close>

definition spec_lower :: "char \<Rightarrow> char" where
  "spec_lower c =
    (case map_of (zip ''ABCDEFGHIJKLMNOPQRSTUVWXYZ'' ''abcdefghijklmnopqrstuvwxyz'') c of
       None \<Rightarrow> c
     | Some l \<Rightarrow> l)"

definition spec_scheme :: "string \<Rightarrow> string" where
  "spec_scheme url = map spec_lower (takeWhile (\<lambda>c. c \<noteq> CHR '':'') url)"

definition spec_media_type :: "string \<Rightarrow> string" where
  "spec_media_type v =
     map spec_lower (takeWhile (\<lambda>c. c \<noteq> CHR '';'' \<and> c \<noteq> CHR '' '') v)"

text \<open>
  The request is accepted when the method is POST, the headers are present with the
  form-encoded content type, the body gave a source/target pair, source and target
  differ, both are valid URLs, the target matches the allow-list when that list is
  non-empty, and the target scheme is http or https.
\<close>

definition spec_accepts ::
  "(string \<Rightarrow> bool) \<Rightarrow> string list \<Rightarrow> request \<Rightarrow> mention option \<Rightarrow> bool" where
  "spec_accepts canParse allowed r mo =
    (method r = ''POST''
     \<and> (case headers r of
          None \<Rightarrow> False
        | Some h \<Rightarrow>
           (case h ''content-type'' of
              None \<Rightarrow> False
            | Some v \<Rightarrow> spec_media_type v = ''application/x-www-form-urlencoded''))
     \<and> (case mo of
          None \<Rightarrow> False
        | Some m \<Rightarrow>
           source m \<noteq> target m
           \<and> canParse (source m) \<and> canParse (target m)
           \<and> (allowed = [] \<or> list_ex (\<lambda>p. startsWith (target m) p) allowed)
           \<and> (spec_scheme (target m) = ''http'' \<or> spec_scheme (target m) = ''https'')))"

text \<open>The example of the specification: one post that mentions one page.\<close>

abbreviation (input) post :: string where
  "post \<equiv> ''https://a.example/post''"

abbreviation (input) page :: string where
  "page \<equiv> ''https://b.example/page''"

abbreviation (input) form_post :: request where
  "form_post \<equiv> \<lparr>method = ''POST'',
     headers = Some [''content-type'' \<mapsto> ''application/x-www-form-urlencoded'']\<rparr>"

abbreviation (input) idle :: state where
  "idle \<equiv> \<lparr>queue = [], webmentions = [], failures = Map.empty, writes = []\<rparr>"

abbreviation (input) post_slash :: string where
  "post_slash \<equiv> ''https://a.example/post/''"

abbreviation (input) found :: "response option" where
  "found \<equiv> Some \<lparr>status = 200, text_of = Some ''see https://b.example/page''\<rparr>"

abbreviation (input) waiting :: state where
  "waiting \<equiv> idle\<lparr>queue := [\<lparr>source = post, target = page\<rparr>]\<rparr>"

section \<open>Properties\<close>

subsection \<open>Validation never throws\<close>

lemma isValid_total:
  "isValid canParse allowed r mo =
     Inr (method r = ''POST''
          \<and> (\<exists>h. headers r = Some h
                 \<and> h ''content-type'' = Some ''application/x-www-form-urlencoded'')
          \<and> (\<exists>m. mo = Some m
                 \<and> source m \<noteq> target m
                 \<and> canParse (source m) \<and> canParse (target m)
                 \<and> (allowed = [] \<or> (\<exists>p \<in> set allowed. prefix p (target m)))
                 \<and> (prefix ''https://'' (target m) \<or> prefix ''http://'' (target m))))"
  unfolding isValid_def BAD_REQUEST_PREDICATES_def on_mention_def DEBUG_def startsWith_def
  by (cases mo; cases "headers r")
     (auto simp: list_ex_iff split: sum.splits bool.splits option.splits)

lemma toMention_None:
  "falsy (get (parse body) ''source'') \<or> falsy (get (parse body) ''target'')
     \<Longrightarrow> toMention parse body = None"
  by (simp add: toMention_def Let_def)

lemma toMention_Some:
  "toMention parse body = Some m \<longleftrightarrow>
     get (parse body) ''source'' = Some (source m) \<and> source m \<noteq> []
   \<and> get (parse body) ''target'' = Some (target m) \<and> target m \<noteq> []"
  by (cases "get (parse body) ''source''"; cases "get (parse body) ''target''")
     (auto simp: toMention_def Let_def)

lemma handler_400:
  "fst (handler canParse allowed parse now r body st) = 400
     \<longleftrightarrow> isValid canParse allowed r (toMention parse body) = Inr False"
  unfolding handler_def Let_def
  by (auto simp: isValid_total split: sum.splits bool.splits option.splits)

subsection \<open>Lists: the first match and its update\<close>

lemma gone_not_ok: "gone resp \<Longrightarrow> \<not> ok resp"
  by (cases resp) auto

lemma find_update_first:
  "(\<And>x. P (f x) = P x) \<Longrightarrow> find P (update_first P f xs) = map_option f (find P xs)"
  by (induction xs) auto

lemma find_None_update_first: "find P xs = None \<Longrightarrow> update_first P f xs = xs"
  by (induction xs) (auto split: if_splits)

lemma find_append: "find P (xs @ ys) = (case find P xs of None \<Rightarrow> find P ys | Some x \<Rightarrow> Some x)"
  by (induction xs) auto

lemma length_update_first: "length (update_first P f xs) = length xs"
  by (induction xs) auto

lemma map_update_first: "(\<And>x. g (f x) = g x) \<Longrightarrow> map g (update_first P f xs) = map g xs"
  by (induction xs) auto

lemma filter_update_first:
  "(\<And>x. P (f x) = P x) \<Longrightarrow> filter P (update_first P f xs) =
     (case filter P xs of [] \<Rightarrow> [] | x # rest \<Rightarrow> f x # rest)"
  by (induction xs) (auto split: list.splits)

lemma filter_not_update_first:
  "(\<And>x. P (f x) = P x) \<Longrightarrow> filter (\<lambda>x. \<not> P x) (update_first P f xs) = filter (\<lambda>x. \<not> P x) xs"
  by (induction xs) auto

lemma find_None_filter: "find P xs = None \<longleftrightarrow> filter P xs = []"
  by (induction xs) auto

lemma find_Some_filter: "find P xs = Some x \<Longrightarrow> \<exists>rest. filter P xs = x # rest"
  by (induction xs) (auto split: if_splits)

lemma validateMention_empty:
  "queue st = [] \<Longrightarrow> validateMention now resp st = (st, None)"
  by (simp add: validateMention_def)

lemma validateMention_ok:
  "queue st = m # rest \<Longrightarrow> ok resp \<Longrightarrow> Option.bind resp text_of = Some data \<Longrightarrow>
   validateMention now resp st =
     (st\<lparr>queue := rest, webmentions := store_ok now m data (webmentions st),
         writes := writes st @ [MentionsFile (store_ok now m data (webmentions st))]\<rparr>, None)"
  by (simp add: validateMention_def store_ok_def Let_def split: option.splits)

lemma validateMention_body_error:
  "queue st = m # rest \<Longrightarrow> ok resp \<Longrightarrow> Option.bind resp text_of = None \<Longrightarrow>
   validateMention now resp st = (st\<lparr>queue := rest\<rparr>, Some BodyError)"
  by (simp add: validateMention_def Let_def)

lemma validateMention_gone:
  "queue st = m # rest \<Longrightarrow> gone resp \<Longrightarrow>
   validateMention now resp st =
     (st\<lparr>queue := rest, webmentions := store_gone now m (webmentions st),
         writes := writes st @ [MentionsFile (store_gone now m (webmentions st))]\<rparr>, None)"
  by (simp add: validateMention_def store_gone_def Let_def gone_not_ok split: option.splits)

lemma validateMention_failure:
  "queue st = m # rest \<Longrightarrow> \<not> ok resp \<Longrightarrow> \<not> gone resp \<Longrightarrow>
   validateMention now resp st =
     (st\<lparr>queue := rest,
         failures := (failures st)(source m \<mapsto> count (failures st) (source m) + 1),
         writes := writes st @
           [FailureFile ((failures st)(source m \<mapsto> count (failures st) (source m) + 1))]\<rparr>, None)"
  by (auto simp add: validateMention_def Let_def count_def split: option.splits)

lemma validateMention_cases:
  obtains (empty) "queue st = []"
  | (ok) m rest data where "queue st = m # rest" "ok resp" "Option.bind resp text_of = Some data"
  | (body_error) m rest where "queue st = m # rest" "ok resp" "Option.bind resp text_of = None"
  | (gone) m rest where "queue st = m # rest" "gone resp"
  | (failure) m rest where "queue st = m # rest" "\<not> ok resp" "\<not> gone resp"
  by (cases "queue st"; cases "ok resp"; cases "gone resp"; cases "Option.bind resp text_of") auto

lemma validateMention_throws:
  "validateMention now resp st = (st', Some e) \<Longrightarrow>
   queue st \<noteq> [] \<and> ok resp \<and> Option.bind resp text_of = None \<and> e = BodyError
   \<and> st' = st\<lparr>queue := tl (queue st)\<rparr>"
  by (cases rule: validateMention_cases [where st = st and resp = resp])
     (auto simp: validateMention_empty validateMention_ok validateMention_body_error
        validateMention_gone validateMention_failure gone_not_ok)

lemma pairs_store_ok: "distinct (pairs ws) \<Longrightarrow> distinct (pairs (store_ok now m data ws))"
  by (auto simp: pairs_def store_ok_def map_update_first find_None_iff isDuplicate_def
           split: option.splits)

lemma pairs_store_gone: "distinct (pairs ws) \<Longrightarrow> distinct (pairs (store_gone now m ws))"
  by (auto simp: pairs_def store_gone_def map_update_first find_None_iff isDuplicate_def
           split: option.splits)

lemma validateMention_distinct:
  "distinct (pairs (webmentions st)) \<Longrightarrow>
   distinct (pairs (webmentions (fst (validateMention now resp st))))"
  by (cases rule: validateMention_cases[where st=st and resp=resp])
     (simp_all add: validateMention_empty validateMention_ok validateMention_body_error
        validateMention_gone validateMention_failure pairs_store_ok pairs_store_gone)

subsection \<open>The entry the store finds after a verification\<close>

lemma store_ok_existing:
  "find (isDuplicate m) ws = Some e \<Longrightarrow>
   find (isDuplicate m) (store_ok now m data ws) =
     Some (e\<lparr>validatedAt := now, isMentioned := Some (includes_str data (target m))\<rparr>)"
  by (simp add: store_ok_def find_update_first isDuplicate_def)

lemma store_ok_fresh:
  "find (isDuplicate m) ws = None \<Longrightarrow>
   find (isDuplicate m) (store_ok now m data ws) =
     Some \<lparr> source = source m, target = target m, validated = True,
            mentioned = Some (includes_str data (target m)), isMentioned = None,
            deleted = None, validatedAt = now \<rparr>"
  by (simp add: store_ok_def find_append isDuplicate_def)

lemma store_gone_existing:
  "find (isDuplicate m) ws = Some e \<Longrightarrow>
   find (isDuplicate m) (store_gone now m ws) = Some (e\<lparr>validatedAt := now, deleted := Some True\<rparr>)"
  by (simp add: store_gone_def find_update_first isDuplicate_def)

lemma store_gone_fresh:
  "find (isDuplicate m) ws = None \<Longrightarrow>
   find (isDuplicate m) (store_gone now m ws) =
     Some \<lparr> source = source m, target = target m, validated = True,
            mentioned = None, isMentioned = None, deleted = Some True, validatedAt = now \<rparr>"
  by (simp add: store_gone_def find_append isDuplicate_def)

subsection \<open>The handler leaves the store and the counters alone\<close>

lemma handler_webmentions:
  "webmentions (snd (handler canParse allowed parse now r body st)) = webmentions st"
  by (simp add: handler_def Let_def split: sum.splits bool.splits option.splits)

lemma handler_failures:
  "failures (snd (handler canParse allowed parse now r body st)) = failures st"
  by (simp add: handler_def Let_def split: sum.splits bool.splits option.splits)

subsection \<open>No pair is stored twice\<close>

lemma step_distinct:
  "distinct (pairs (webmentions st)) \<Longrightarrow>
   distinct (pairs (webmentions (step canParse allowed parse ev st)))"
  by (cases ev) (simp_all add: step_def handler_webmentions validateMention_distinct)

lemma run_distinct:
  "distinct (pairs (webmentions st)) \<Longrightarrow>
   distinct (pairs (webmentions (run canParse allowed parse evs st)))"
  by (induction evs arbitrary: st) (simp_all add: step_distinct)

lemma filter_store_ok_fresh:
  "find (isDuplicate m) ws = None \<Longrightarrow>
   \<exists>e. filter (isDuplicate m) (store_ok now m data ws) = [e] \<and> validatedAt e = now"
proof -
  assume a: "find (isDuplicate m) ws = None"
  then have f: "filter (isDuplicate m) ws = []"
    by (simp add: find_None_filter)
  show ?thesis
    using a f by (simp add: store_ok_def isDuplicate_def)
qed

lemma filter_store_gone_fresh:
  "find (isDuplicate m) ws = None \<Longrightarrow>
   \<exists>e. filter (isDuplicate m) (store_gone now m ws) = [e] \<and> validatedAt e = now"
proof -
  assume a: "find (isDuplicate m) ws = None"
  then have f: "filter (isDuplicate m) ws = []"
    by (simp add: find_None_filter)
  show ?thesis
    using a f by (simp add: store_gone_def isDuplicate_def)
qed

lemma filter_store_ok_single:
  "filter (isDuplicate m) ws = [e] \<Longrightarrow>
   \<exists>e'. filter (isDuplicate m) (store_ok now m data ws) = [e'] \<and> validatedAt e' = now"
proof -
  assume a: "filter (isDuplicate m) ws = [e]"
  then have "find (isDuplicate m) ws \<noteq> None"
    by (simp add: find_None_filter)
  then obtain x where "find (isDuplicate m) ws = Some x" by blast
  with a show ?thesis
    by (simp add: store_ok_def filter_update_first isDuplicate_def)
qed

lemma filter_store_gone_single:
  "filter (isDuplicate m) ws = [e] \<Longrightarrow>
   \<exists>e'. filter (isDuplicate m) (store_gone now m ws) = [e'] \<and> validatedAt e' = now"
proof -
  assume a: "filter (isDuplicate m) ws = [e]"
  then have "find (isDuplicate m) ws \<noteq> None"
    by (simp add: find_None_filter)
  then obtain x where "find (isDuplicate m) ws = Some x" by blast
  with a show ?thesis
    by (simp add: store_gone_def filter_update_first isDuplicate_def)
qed

lemma stored_cases:
  assumes "(ok resp \<and> Option.bind resp text_of \<noteq> None) \<or> gone resp"
  obtains (ok) data where "ok resp" "Option.bind resp text_of = Some data"
  | (gone) "gone resp"
  using assms by auto

lemma verify_fresh_single:
  assumes "queue st = m # rest" and "find (isDuplicate m) (webmentions st) = None"
    and "(ok resp \<and> Option.bind resp text_of \<noteq> None) \<or> gone resp"
  shows "\<exists>e. filter (isDuplicate m) (webmentions (fst (validateMention now resp st))) = [e]
             \<and> validatedAt e = now"
  using assms(3)
proof (cases rule: stored_cases)
  case (ok data)
  with assms show ?thesis by (simp add: validateMention_ok filter_store_ok_fresh)
next
  case gone
  with assms show ?thesis by (simp add: validateMention_gone filter_store_gone_fresh)
qed

lemma verify_again_single:
  assumes "queue st = m # rest" and "filter (isDuplicate m) (webmentions st) = [e]"
    and "(ok resp \<and> Option.bind resp text_of \<noteq> None) \<or> gone resp"
  shows "\<exists>e'. filter (isDuplicate m) (webmentions (fst (validateMention now resp st))) = [e']
             \<and> validatedAt e' = now"
  using assms(3)
proof (cases rule: stored_cases)
  case (ok data)
  with assms show ?thesis by (simp add: validateMention_ok filter_store_ok_single)
next
  case gone
  with assms show ?thesis by (simp add: validateMention_gone filter_store_gone_single)
qed

subsection \<open>The first match in a duplicate-free store\<close>

lemma find_distinct_pairs:
  "distinct (pairs ws) \<Longrightarrow> e \<in> set ws \<Longrightarrow> isDuplicate m e \<Longrightarrow>
   find (isDuplicate m) ws = Some e"
proof (induction ws)
  case Nil
  then show ?case by simp
next
  case (Cons x ws)
  show ?case
  proof (cases "isDuplicate m x")
    case True
    have "e = x"
    proof (rule ccontr)
      assume "e \<noteq> x"
      with Cons.prems have "e \<in> set ws" by simp
      then have "(source e, target e) \<in> set (pairs ws)"
        by (auto simp: pairs_def)
      moreover have "(source e, target e) = (source x, target x)"
        using True Cons.prems(3) by (simp add: isDuplicate_def)
      ultimately show False
        using Cons.prems(1) by (simp add: pairs_def)
    qed
    with True show ?thesis by simp
  next
    case False
    with Cons.prems have "e \<in> set ws" by auto
    with Cons False show ?thesis by (simp add: pairs_def)
  qed
qed

lemma find_Some_mem: "find P xs = Some x \<Longrightarrow> x \<in> set xs \<and> P x"
  by (induction xs) (auto split: if_splits)

lemma find_None_mem: "find P xs = None \<longleftrightarrow> (\<forall>x \<in> set xs. \<not> P x)"
  by (induction xs) auto

subsection \<open>Failure counts along a run, and the entries of other pairs\<close>

lemma validateMention_count:
  "count (failures st) s \<le> count (failures (fst (validateMention now resp st))) s"
  by (cases rule: validateMention_cases [where st = st and resp = resp])
     (simp_all add: validateMention_empty validateMention_ok validateMention_body_error
        validateMention_gone validateMention_failure count_def)

lemma validateMention_dom:
  "dom (failures st) \<subseteq> dom (failures (fst (validateMention now resp st)))"
  by (cases rule: validateMention_cases [where st = st and resp = resp])
     (auto simp: validateMention_empty validateMention_ok validateMention_body_error
        validateMention_gone validateMention_failure)

lemma step_count:
  "count (failures st) s \<le> count (failures (step canParse allowed parse ev st)) s"
  by (cases ev) (simp_all add: step_def handler_failures validateMention_count)

lemma step_dom:
  "dom (failures st) \<subseteq> dom (failures (step canParse allowed parse ev st))"
  by (cases ev) (simp_all add: step_def handler_failures validateMention_dom)

lemma run_count:
  "count (failures st) s \<le> count (failures (run canParse allowed parse evs st)) s"
proof (induction evs arbitrary: st)
  case Nil
  show ?case by simp
next
  case (Cons ev evs)
  have "count (failures st) s \<le> count (failures (step canParse allowed parse ev st)) s"
    by (rule step_count)
  also have "\<dots> \<le> count (failures (run canParse allowed parse evs
                                     (step canParse allowed parse ev st))) s"
    by (rule Cons.IH)
  finally show ?case by simp
qed

lemma run_dom:
  "dom (failures st) \<subseteq> dom (failures (run canParse allowed parse evs st))"
proof (induction evs arbitrary: st)
  case Nil
  show ?case by simp
next
  case (Cons ev evs)
  have "dom (failures st) \<subseteq> dom (failures (step canParse allowed parse ev st))"
    by (rule step_dom)
  also have "\<dots> \<subseteq> dom (failures (run canParse allowed parse evs
                                     (step canParse allowed parse ev st)))"
    by (rule Cons.IH)
  finally show ?case by simp
qed

lemma others_store_ok:
  "filter (\<lambda>e. \<not> isDuplicate m e) (store_ok now m data ws) = filter (\<lambda>e. \<not> isDuplicate m e) ws"
proof (cases "find (isDuplicate m) ws")
  case None
  then show ?thesis by (simp add: store_ok_def isDuplicate_def)
next
  case (Some x)
  then show ?thesis
    by (simp add: store_ok_def) (rule filter_not_update_first, simp add: isDuplicate_def)
qed

lemma others_store_gone:
  "filter (\<lambda>e. \<not> isDuplicate m e) (store_gone now m ws) = filter (\<lambda>e. \<not> isDuplicate m e) ws"
proof (cases "find (isDuplicate m) ws")
  case None
  then show ?thesis by (simp add: store_gone_def isDuplicate_def)
next
  case (Some x)
  then show ?thesis
    by (simp add: store_gone_def) (rule filter_not_update_first, simp add: isDuplicate_def)
qed

lemma validateMention_others:
  "queue st = m # rest \<Longrightarrow>
   filter (\<lambda>e. \<not> isDuplicate m e) (webmentions (fst (validateMention now resp st)))
     = filter (\<lambda>e. \<not> isDuplicate m e) (webmentions st)"
  by (cases rule: validateMention_cases [where st = st and resp = resp])
     (simp_all add: validateMention_ok validateMention_body_error
        validateMention_gone validateMention_failure others_store_ok others_store_gone)

section \<open>The claims\<close>

subsection \<open>C1: a 2xx verification of a stored pair\<close>

text \<open>
  C1 says that a 2xx verification of a pair that is already stored updates the entry's
  \<^verbatim>\<open>validatedAt\<close> and its \<^verbatim>\<open>mentioned\<close> flag in place, so that \<^verbatim>\<open>mentioned\<close> says
  whether the fetched body contains the target. The update branch assigns
  \<^verbatim>\<open>existing.isMentioned\<close>, a property the append branch never writes, and leaves
  \<^verbatim>\<open>existing.mentioned\<close> as it was. Here the stored entry has \<^verbatim>\<open>mentioned = false\<close>, the
  body fetched contains the target, and after the run the entry still has
  \<^verbatim>\<open>mentioned = false\<close>, next to \<^verbatim>\<open>isMentioned = true\<close> and the new \<^verbatim>\<open>validatedAt\<close>.
\<close>

theorem update_leaves_mentioned_stale:
  "includes_str ''see https://b.example/page'' page
   \<and> map_option (\<lambda>e. (mentioned e, isMentioned e, validatedAt e))
       (find (isDuplicate \<lparr>source = post, target = page\<rparr>)
         (webmentions (fst (validateMention 90000000
            (Some \<lparr>status = 200, text_of = Some ''see https://b.example/page''\<rparr>)
            \<lparr>queue = [\<lparr>source = post, target = page\<rparr>],
              webmentions = [\<lparr>source = post, target = page, validated = True,
                              mentioned = Some False, isMentioned = None, deleted = None,
                              validatedAt = 0\<rparr>],
              failures = Map.empty, writes = []\<rparr>))))
     = Some (Some False, Some True, 90000000)"
proof -
  have inc: "includes_str ''see https://b.example/page'' page"
    unfolding includes_str_def by code_simp
  show ?thesis
    using inc
    by (simp add: validateMention_def Let_def isDuplicate_def)
qed

subsection \<open>C2: a 410 verification\<close>

text \<open>
  C2 says that after a 410 the entry of the pair has \<^verbatim>\<open>deleted = true\<close> and no
  \<^verbatim>\<open>mentioned\<close> property, whether the entry was appended or updated. The update branch
  assigns \<^verbatim>\<open>validatedAt\<close> and \<^verbatim>\<open>deleted\<close> and nothing else: an entry stored with
  \<^verbatim>\<open>mentioned = true\<close> keeps it next to \<^verbatim>\<open>deleted = true\<close>.
\<close>

theorem gone_keeps_mentioned:
  "map_option (\<lambda>e. (deleted e, mentioned e))
     (find (isDuplicate \<lparr>source = post, target = page\<rparr>)
       (webmentions (fst (validateMention 90000000
          (Some \<lparr>status = 410, text_of = Some ''''\<rparr>)
          \<lparr>queue = [\<lparr>source = post, target = page\<rparr>],
            webmentions = [\<lparr>source = post, target = page, validated = True,
                            mentioned = Some True, isMentioned = None, deleted = None,
                            validatedAt = 0\<rparr>],
            failures = Map.empty, writes = []\<rparr>))))
   = Some (Some True, Some True)"
  by (simp add: validateMention_def Let_def isDuplicate_def)

text \<open>
  C2, amended: after a 410 the store finds an entry for the pair, with
  \<^verbatim>\<open>deleted = true\<close> and the new \<^verbatim>\<open>validatedAt\<close>; its \<^verbatim>\<open>mentioned\<close> property is absent when
  the entry was appended, and is what it was before when the entry was updated.
\<close>

theorem gone_marks_deleted:
  assumes "queue st = m # rest" and "gone resp"
  shows "\<exists>e'. find (isDuplicate m) (webmentions (fst (validateMention now resp st))) = Some e'
           \<and> deleted e' = Some True
           \<and> validatedAt e' = now
           \<and> mentioned e' = (case find (isDuplicate m) (webmentions st) of
                                 None \<Rightarrow> None
                               | Some e \<Rightarrow> mentioned e)"
proof (cases "find (isDuplicate m) (webmentions st)")
  case None
  with assms show ?thesis
    by (simp add: validateMention_gone store_gone_fresh)
next
  case (Some e)
  with assms show ?thesis
    by (simp add: validateMention_gone store_gone_existing)
qed

theorem gone_marks_deleted_witness:
  "(\<exists>e'. find (isDuplicate \<lparr>source = post, target = page\<rparr>)
           (webmentions (fst (validateMention 7 (Some \<lparr>status = 410, text_of = None\<rparr>)
              (idle\<lparr>queue := [\<lparr>source = post, target = page\<rparr>]\<rparr>)))) = Some e'
         \<and> deleted e' = Some True \<and> validatedAt e' = 7 \<and> mentioned e' = None)
   \<and> (\<exists>e'. find (isDuplicate \<lparr>source = post, target = page\<rparr>)
           (webmentions (fst (validateMention 7 (Some \<lparr>status = 410, text_of = None\<rparr>)
              (idle\<lparr>queue := [\<lparr>source = post, target = page\<rparr>],
                    webmentions := [\<lparr>source = post, target = page, validated = True,
                            mentioned = Some False, isMentioned = None, deleted = None,
                            validatedAt = 0\<rparr>]\<rparr>)))) = Some e'
         \<and> deleted e' = Some True \<and> validatedAt e' = 7 \<and> mentioned e' = Some False)"
  using
    gone_marks_deleted [of "idle\<lparr>queue := [\<lparr>source = post, target = page\<rparr>]\<rparr>"
      "\<lparr>source = post, target = page\<rparr>" "[]" "Some \<lparr>status = 410, text_of = None\<rparr>" 7]
    gone_marks_deleted [of "idle\<lparr>queue := [\<lparr>source = post, target = page\<rparr>],
                    webmentions := [\<lparr>source = post, target = page, validated = True,
                            mentioned = Some False, isMentioned = None, deleted = None,
                            validatedAt = 0\<rparr>]\<rparr>"
      "\<lparr>source = post, target = page\<rparr>" "[]" "Some \<lparr>status = 410, text_of = None\<rparr>" 7]
  by (simp add: isDuplicate_def)

subsection \<open>C3: one entry per pair\<close>

text \<open>
  C3: a store in which no (source, target) pair occurs twice stays so after every run of
  the verifier, whatever the fetch outcome, and after every sequence of requests and
  verifier runs. When a pair that is not stored is verified (2xx with its body read, or
  410) and later verified again, the store holds exactly one entry for the pair, and its
  \<^verbatim>\<open>validatedAt\<close> is the time of the second verification.
\<close>

theorem one_entry_per_pair:
  "(distinct (pairs (webmentions st)) \<longrightarrow>
      distinct (pairs (webmentions (fst (validateMention now resp st))))
      \<and> distinct (pairs (webmentions (run canParse allowed parse evs st))))
   \<and> (queue st = m # rest \<and> find (isDuplicate m) (webmentions st) = None
        \<and> ((ok r1 \<and> Option.bind r1 text_of \<noteq> None) \<or> gone r1)
        \<and> ((ok r2 \<and> Option.bind r2 text_of \<noteq> None) \<or> gone r2)
        \<and> queue st1 = m # rest1
        \<and> webmentions st1 = webmentions (fst (validateMention t1 r1 st))
      \<longrightarrow> (\<exists>e. filter (isDuplicate m) (webmentions (fst (validateMention t2 r2 st1))) = [e]
                \<and> validatedAt e = t2))"
proof (intro conjI impI)
  assume "distinct (pairs (webmentions st))"
  then show "distinct (pairs (webmentions (fst (validateMention now resp st))))"
    by (rule validateMention_distinct)
next
  assume "distinct (pairs (webmentions st))"
  then show "distinct (pairs (webmentions (run canParse allowed parse evs st)))"
    by (rule run_distinct)
next
  assume a: "queue st = m # rest \<and> find (isDuplicate m) (webmentions st) = None
        \<and> ((ok r1 \<and> Option.bind r1 text_of \<noteq> None) \<or> gone r1)
        \<and> ((ok r2 \<and> Option.bind r2 text_of \<noteq> None) \<or> gone r2)
        \<and> queue st1 = m # rest1
        \<and> webmentions st1 = webmentions (fst (validateMention t1 r1 st))"
  then obtain e where "filter (isDuplicate m) (webmentions (fst (validateMention t1 r1 st))) = [e]"
    using verify_fresh_single [of st m rest r1 t1] by blast
  with a have "filter (isDuplicate m) (webmentions st1) = [e]" by simp
  with a show "\<exists>e. filter (isDuplicate m) (webmentions (fst (validateMention t2 r2 st1))) = [e]
                \<and> validatedAt e = t2"
    using verify_again_single [of st1 m rest1 e r2 t2] by blast
qed

theorem one_entry_per_pair_witness:
  "distinct (pairs (webmentions (fst (validateMention 1000 found waiting))))
   \<and> distinct (pairs (webmentions (run (\<lambda>u. True) [] (\<lambda>b. [])
        [Tick 1000 found, Tick 2000 None] waiting)))
   \<and> (\<exists>e. filter (isDuplicate \<lparr>source = post, target = page\<rparr>)
          (webmentions (fst (validateMention 90000000 (Some \<lparr>status = 410, text_of = None\<rparr>)
             ((fst (validateMention 1000 found waiting))
                \<lparr>queue := [\<lparr>source = post, target = page\<rparr>]\<rparr>)))) = [e]
        \<and> validatedAt e = 90000000)"
  using one_entry_per_pair [where st = waiting and now = 1000 and resp = found
      and canParse = "\<lambda>u. True" and allowed = "[]" and parse = "\<lambda>b. []"
      and evs = "[Tick 1000 found, Tick 2000 None]"
      and m = "\<lparr>source = post, target = page\<rparr>" and rest = "[]"
      and ?r1.0 = found and ?r2.0 = "Some \<lparr>status = 410, text_of = None\<rparr>"
      and ?st1.0 = "(fst (validateMention 1000 found waiting))
                \<lparr>queue := [\<lparr>source = post, target = page\<rparr>]\<rparr>"
      and ?rest1.0 = "[]" and ?t1.0 = 1000 and ?t2.0 = 90000000]
  by (simp add: pairs_def)

subsection \<open>C4: the writes of one run\<close>

text \<open>
  C4 says that every run of the verifier on a non-empty queue performs exactly one
  write. \<^verbatim>\<open>await response.text()\<close> stands between the status test and the write: when
  reading the body of a 2xx response rejects, the run ends with that exception, after the
  queue was shifted and before any \<^verbatim>\<open>writeFile\<close>.
\<close>

theorem body_error_writes_nothing:
  "validateMention 1 (Some \<lparr>status = 200, text_of = None\<rparr>)
     (idle\<lparr>queue := [\<lparr>source = post, target = page\<rparr>]\<rparr>)
   = (idle, Some BodyError)"
  by (simp add: validateMention_def)

text \<open>
  C4, amended: on an empty queue the run changes nothing and writes nothing. On a
  non-empty queue a run that returns performs exactly one write: the store to the mentions
  file after a 2xx or a 410 (the failure counts unchanged), the failure counts to the
  failure file after any other outcome (the store unchanged).
\<close>

theorem one_write_per_run:
  "(queue st = [] \<longrightarrow> validateMention now resp st = (st, None))
   \<and> (queue st \<noteq> [] \<and> validateMention now resp st = (st', None) \<longrightarrow>
        (ok resp \<or> gone resp \<longrightarrow>
           writes st' = writes st @ [MentionsFile (webmentions st')]
           \<and> failures st' = failures st)
        \<and> (\<not> ok resp \<and> \<not> gone resp \<longrightarrow>
           writes st' = writes st @ [FailureFile (failures st')]
           \<and> webmentions st' = webmentions st))"
proof (cases rule: validateMention_cases [where st = st and resp = resp])
  case empty
  then show ?thesis by (simp add: validateMention_empty)
next
  case (ok m rest data)
  then show ?thesis by (auto simp: validateMention_ok)
next
  case (body_error m rest)
  then show ?thesis by (simp add: validateMention_body_error)
next
  case (gone m rest)
  then show ?thesis by (auto simp: validateMention_gone gone_not_ok)
next
  case (failure m rest)
  then show ?thesis by (auto simp: validateMention_failure)
qed

theorem one_write_per_run_witness:
  "validateMention 5 None idle = (idle, None)
   \<and> writes (fst (validateMention 5 found waiting))
       = [MentionsFile (webmentions (fst (validateMention 5 found waiting)))]
   \<and> writes (fst (validateMention 5 None waiting))
       = [FailureFile (failures (fst (validateMention 5 None waiting)))]"
proof -
  have a: "snd (validateMention 5 found waiting) = None"
    by (simp add: validateMention_def Let_def)
  have b: "snd (validateMention 5 None waiting) = None"
    by (simp add: validateMention_def Let_def)
  show ?thesis
    using
      one_write_per_run [where st = idle and now = 5 and resp = None]
      one_write_per_run [where st = waiting and now = 5 and resp = found
        and st' = "fst (validateMention 5 found waiting)"]
      one_write_per_run [where st = waiting and now = 5 and resp = None
        and st' = "fst (validateMention 5 None waiting)"]
      a b
    by (simp add: prod_eq_iff)
qed

subsection \<open>C5: a failed verification\<close>

text \<open>
  C5: when the fetch was rejected or its status is neither 2xx nor 410, the run leaves
  the store unchanged, sets the failure count of the mention's source to one more than
  before (to 1 when there was none) and writes only the failure file, once.
\<close>

theorem failure_counts_only:
  assumes "queue st = m # rest" and "\<not> ok resp" and "\<not> gone resp"
    and "validateMention now resp st = (st', e)"
  shows "e = None
       \<and> queue st' = rest
       \<and> webmentions st' = webmentions st
       \<and> failures st' = (failures st)(source m \<mapsto>
             (case failures st (source m) of None \<Rightarrow> 1 | Some n \<Rightarrow> n + 1))
       \<and> writes st' = writes st @ [FailureFile (failures st')]"
  using assms by (auto simp: validateMention_failure count_def split: option.splits)

theorem failure_counts_only_witness:
  "validateMention 3 None (idle\<lparr>queue := [\<lparr>source = post, target = page\<rparr>]\<rparr>)
     = (idle\<lparr>failures := [post \<mapsto> 1], writes := [FailureFile [post \<mapsto> 1]]\<rparr>, None)
   \<and> failures (fst (validateMention 3 (Some \<lparr>status = 404, text_of = Some ''''\<rparr>)
         (idle\<lparr>queue := [\<lparr>source = post, target = page\<rparr>], failures := [post \<mapsto> 4]\<rparr>))) post
     = Some 5"
proof -
  obtain st' e where r: "validateMention 3 None (idle\<lparr>queue := [\<lparr>source = post, target = page\<rparr>]\<rparr>) = (st', e)"
    by (cases "validateMention 3 None (idle\<lparr>queue := [\<lparr>source = post, target = page\<rparr>]\<rparr>)")
  obtain st2 e2 where r2: "validateMention 3 (Some \<lparr>status = 404, text_of = Some ''''\<rparr>)
         (idle\<lparr>queue := [\<lparr>source = post, target = page\<rparr>], failures := [post \<mapsto> 4]\<rparr>) = (st2, e2)"
    by (cases "validateMention 3 (Some \<lparr>status = 404, text_of = Some ''''\<rparr>)
         (idle\<lparr>queue := [\<lparr>source = post, target = page\<rparr>], failures := [post \<mapsto> 4]\<rparr>)")
  have a: "st' = idle\<lparr>failures := [post \<mapsto> 1], writes := [FailureFile [post \<mapsto> 1]]\<rparr> \<and> e = None"
    using failure_counts_only [OF _ _ _ r, of "\<lparr>source = post, target = page\<rparr>" "[]"]
    by simp
  have b: "failures st2 post = Some 5"
    using failure_counts_only [OF _ _ _ r2, of "\<lparr>source = post, target = page\<rparr>" "[]"]
    by simp
  show ?thesis using a b r r2 by simp
qed

subsection \<open>C6: the three gates of admission\<close>

text \<open>
  C6: over a store that holds no pair twice, \<^verbatim>\<open>isEnqueueable\<close> returns false exactly
  when the same (source, target) is already queued, or the failure count of the source
  exceeds 5, or a stored entry of the same pair was validated less than 24 hours before
  now; otherwise it returns true.
\<close>

theorem isEnqueueable_iff:
  assumes "distinct (pairs (webmentions st))"
  shows "isEnqueueable now st m = False \<longleftrightarrow>
           (\<exists>q \<in> set (queue st). source q = source m \<and> target q = target m)
         \<or> (\<exists>n. failures st (source m) = Some n \<and> n > 5)
         \<or> (\<exists>e \<in> set (webmentions st). source e = source m \<and> target e = target m
                \<and> now - validatedAt e < 24 * 60 * 60 * 1000)"
proof -
  have q: "(find (isDuplicate m) (queue st) = None) \<longleftrightarrow>
           \<not> (\<exists>q \<in> set (queue st). source q = source m \<and> target q = target m)"
    by (simp add: find_None_mem isDuplicate_def)
  have w: "(\<exists>e \<in> set (webmentions st). source e = source m \<and> target e = target m
                \<and> now - validatedAt e < 24 * 60 * 60 * 1000) \<longleftrightarrow>
           (\<exists>e. find (isDuplicate m) (webmentions st) = Some e
                \<and> now - validatedAt e < 24 * 60 * 60 * 1000)"
    (is "?L \<longleftrightarrow> ?R")
  proof
    assume ?L
    then obtain e where e: "e \<in> set (webmentions st)" "isDuplicate m e"
      "now - validatedAt e < 24 * 60 * 60 * 1000"
      by (auto simp: isDuplicate_def)
    then have "find (isDuplicate m) (webmentions st) = Some e"
      using assms find_distinct_pairs by blast
    with e show ?R by blast
  next
    assume ?R
    then obtain e where e: "find (isDuplicate m) (webmentions st) = Some e"
      "now - validatedAt e < 24 * 60 * 60 * 1000" by blast
    then have "e \<in> set (webmentions st) \<and> isDuplicate m e"
      by (simp add: find_Some_mem)
    with e show ?L by (auto simp: isDuplicate_def)
  qed
  show ?thesis
    unfolding w
    by (cases "find (isDuplicate m) (queue st)"; cases "failures st (source m)";
        cases "find (isDuplicate m) (webmentions st)")
       (use q in \<open>auto simp: isEnqueueable_def\<close>)
qed

theorem isEnqueueable_iff_witness:
  "isEnqueueable 1000 (idle\<lparr>webmentions := [\<lparr>source = post, target = page, validated = True,
       mentioned = Some True, isMentioned = None, deleted = None, validatedAt = 0\<rparr>]\<rparr>)
     \<lparr>source = post, target = page\<rparr> = False
   \<and> isEnqueueable 86400000 (idle\<lparr>webmentions := [\<lparr>source = post, target = page, validated = True,
       mentioned = Some True, isMentioned = None, deleted = None, validatedAt = 0\<rparr>]\<rparr>)
     \<lparr>source = post, target = page\<rparr> = True
   \<and> isEnqueueable 0 (idle\<lparr>failures := [post \<mapsto> 6]\<rparr>) \<lparr>source = post, target = page\<rparr> = False
   \<and> isEnqueueable 0 (idle\<lparr>failures := [post \<mapsto> 5]\<rparr>) \<lparr>source = post, target = page\<rparr> = True
   \<and> isEnqueueable 0 waiting \<lparr>source = post, target = page\<rparr> = False"
  using
    isEnqueueable_iff [of "idle\<lparr>webmentions := [\<lparr>source = post, target = page, validated = True,
       mentioned = Some True, isMentioned = None, deleted = None, validatedAt = 0\<rparr>]\<rparr>"
       1000 "\<lparr>source = post, target = page\<rparr>"]
    isEnqueueable_iff [of "idle\<lparr>webmentions := [\<lparr>source = post, target = page, validated = True,
       mentioned = Some True, isMentioned = None, deleted = None, validatedAt = 0\<rparr>]\<rparr>"
       86400000 "\<lparr>source = post, target = page\<rparr>"]
    isEnqueueable_iff [of "idle\<lparr>failures := [post \<mapsto> 6]\<rparr>" 0 "\<lparr>source = post, target = page\<rparr>"]
    isEnqueueable_iff [of "idle\<lparr>failures := [post \<mapsto> 5]\<rparr>" 0 "\<lparr>source = post, target = page\<rparr>"]
    isEnqueueable_iff [of waiting 0 "\<lparr>source = post, target = page\<rparr>"]
  by (simp add: pairs_def)

subsection \<open>C7: the validator\<close>

text \<open>
  C7 says that the validator accepts exactly when the method is POST, the headers are
  present with the form-encoded content type, the body gave a source/target pair, source
  and target differ, both are valid URLs, the target matches the allow-list when it is
  non-empty, and the target scheme is http or https. The code tests the last condition
  with \<^verbatim>\<open>startsWith("https://")\<close> and \<^verbatim>\<open>startsWith("http://")\<close>, which are case-sensitive,
  and the content type with \<^verbatim>\<open>!==\<close> against the bare media type. A target written
  \<^verbatim>\<open>HTTPS://b.example/page\<close> (a URL that parses, of scheme https) and a content type
  that carries \<^verbatim>\<open>; charset=UTF-8\<close> meet every condition C7 names, and the validator
  rejects both.
\<close>

theorem literal_tests_reject_valid_requests:
  "spec_accepts (\<lambda>u. True) [] form_post
     (Some \<lparr>source = post, target = ''HTTPS://b.example/page''\<rparr>)
   \<and> isValid (\<lambda>u. True) [] form_post
       (Some \<lparr>source = post, target = ''HTTPS://b.example/page''\<rparr>) = Inr False
   \<and> spec_accepts (\<lambda>u. True) []
       \<lparr>method = ''POST'', headers = Some [''content-type'' \<mapsto>
          ''application/x-www-form-urlencoded; charset=UTF-8'']\<rparr>
       (Some \<lparr>source = post, target = page\<rparr>)
   \<and> isValid (\<lambda>u. True) []
       \<lparr>method = ''POST'', headers = Some [''content-type'' \<mapsto>
          ''application/x-www-form-urlencoded; charset=UTF-8'']\<rparr>
       (Some \<lparr>source = post, target = page\<rparr>) = Inr False"
proof -
  have s: "spec_scheme ''HTTPS://b.example/page'' = ''https''"
    "spec_scheme page = ''https''"
    by (simp_all add: spec_scheme_def spec_lower_def)
  have t: "spec_media_type ''application/x-www-form-urlencoded; charset=UTF-8''
             = ''application/x-www-form-urlencoded''"
    "spec_media_type ''application/x-www-form-urlencoded'' = ''application/x-www-form-urlencoded''"
    by (simp_all add: spec_media_type_def spec_lower_def)
  show ?thesis
    by (simp add: spec_accepts_def s t isValid_total)
qed

text \<open>
  C7, amended: the validator accepts exactly when no rejection rule holds, that is when
  the method is POST, the headers are present and the \<^verbatim>\<open>content-type\<close> header is exactly
  the string \<^verbatim>\<open>application/x-www-form-urlencoded\<close>, the body gave a mention (both
  fields present and non-empty), source and target differ, both parse as URLs, the
  target starts with an entry of the allow-list when that list is non-empty, and the
  target string starts with the literal \<^verbatim>\<open>https://\<close> or \<^verbatim>\<open>http://\<close>. No rule throws on the
  way (the result is always \<open>Inr\<close>), and the handler answers 400 exactly when the
  validator rejects.
\<close>

theorem validator_accepts_iff:
  "isValid canParse allowed r mo =
     Inr (method r = ''POST''
          \<and> (\<exists>h. headers r = Some h
                 \<and> h ''content-type'' = Some ''application/x-www-form-urlencoded'')
          \<and> (\<exists>m. mo = Some m
                 \<and> source m \<noteq> target m
                 \<and> canParse (source m) \<and> canParse (target m)
                 \<and> (allowed = [] \<or> (\<exists>p \<in> set allowed. startsWith (target m) p))
                 \<and> (startsWith (target m) ''https://'' \<or> startsWith (target m) ''http://'')))
   \<and> (toMention parse body = Some m' \<longleftrightarrow>
          get (parse body) ''source'' = Some (source m') \<and> source m' \<noteq> []
        \<and> get (parse body) ''target'' = Some (target m') \<and> target m' \<noteq> [])
   \<and> (fst (handler canParse allowed parse now r body st) = 400 \<longleftrightarrow>
          isValid canParse allowed r (toMention parse body) = Inr False)"
proof (intro conjI)
  show "isValid canParse allowed r mo =
     Inr (method r = ''POST''
          \<and> (\<exists>h. headers r = Some h
                 \<and> h ''content-type'' = Some ''application/x-www-form-urlencoded'')
          \<and> (\<exists>m. mo = Some m
                 \<and> source m \<noteq> target m
                 \<and> canParse (source m) \<and> canParse (target m)
                 \<and> (allowed = [] \<or> (\<exists>p \<in> set allowed. startsWith (target m) p))
                 \<and> (startsWith (target m) ''https://'' \<or> startsWith (target m) ''http://'')))"
    unfolding startsWith_def by (rule isValid_total)
  show "toMention parse body = Some m' \<longleftrightarrow>
          get (parse body) ''source'' = Some (source m') \<and> source m' \<noteq> []
        \<and> get (parse body) ''target'' = Some (target m') \<and> target m' \<noteq> []"
    by (rule toMention_Some)
  show "fst (handler canParse allowed parse now r body st) = 400 \<longleftrightarrow>
          isValid canParse allowed r (toMention parse body) = Inr False"
    by (rule handler_400)
qed

theorem validator_accepts_iff_witness:
  "isValid (\<lambda>u. True) [''https://b.example/''] form_post
      (Some \<lparr>source = post, target = ''https://c.example/x''\<rparr>) = Inr False
   \<and> isValid (\<lambda>u. True) [''https://b.example/''] form_post
      (Some \<lparr>source = post, target = page\<rparr>) = Inr True
   \<and> isValid (\<lambda>u. True) [] form_post (Some \<lparr>source = post, target = post\<rparr>) = Inr False
   \<and> isValid (\<lambda>u. True) [] form_post
      (Some \<lparr>source = post, target = ''ftp://b.example/page''\<rparr>) = Inr False
   \<and> fst (handler (\<lambda>u. True) [''https://b.example/'']
        (\<lambda>b. [(''source'', post), (''target'', ''https://c.example/x'')]) 0 form_post
        ''source=https://a.example/post&target=https://c.example/x''
        \<lparr>queue = [], webmentions = [], failures = Map.empty, writes = []\<rparr>) = 400"
  using
    validator_accepts_iff [of "\<lambda>u. True" "[''https://b.example/'']" form_post
      "Some \<lparr>source = post, target = ''https://c.example/x''\<rparr>"
      "\<lambda>b. [(''source'', post), (''target'', ''https://c.example/x'')]"
      "''source=https://a.example/post&target=https://c.example/x''"
      "\<lparr>source = post, target = ''https://c.example/x''\<rparr>" 0
      "\<lparr>queue = [], webmentions = [], failures = Map.empty, writes = []\<rparr>"]
    validator_accepts_iff [of "\<lambda>u. True" "[''https://b.example/'']" form_post
      "Some \<lparr>source = post, target = page\<rparr>"]
    validator_accepts_iff [of "\<lambda>u. True" "[]" form_post
      "Some \<lparr>source = post, target = post\<rparr>"]
    validator_accepts_iff [of "\<lambda>u. True" "[]" form_post
      "Some \<lparr>source = post, target = ''ftp://b.example/page''\<rparr>"]
  by (simp add: startsWith_def toMention_def)

subsection \<open>C8: failure counts never decrease\<close>

text \<open>
  C8: along every sequence of requests and verifier runs the failure count of every
  source (0 when absent) never decreases and no counter is removed; a run whose outcome
  is neither 2xx nor 410 raises the count of the mention's source by one; a 2xx or 410
  run leaves all counts as they are, also those of the source it has just verified.
\<close>

theorem failures_never_decrease:
  "count (failures st) s \<le> count (failures (run canParse allowed parse evs st)) s
   \<and> dom (failures st) \<subseteq> dom (failures (run canParse allowed parse evs st))
   \<and> (queue st = m # rest \<and> \<not> ok resp \<and> \<not> gone resp \<longrightarrow>
        count (failures (fst (validateMention now resp st))) (source m)
          = count (failures st) (source m) + 1)
   \<and> (ok resp \<or> gone resp \<longrightarrow>
        failures (fst (validateMention now resp st)) = failures st)"
proof (intro conjI impI)
  show "count (failures st) s \<le> count (failures (run canParse allowed parse evs st)) s"
    by (rule run_count)
  show "dom (failures st) \<subseteq> dom (failures (run canParse allowed parse evs st))"
    by (rule run_dom)
next
  assume "queue st = m # rest \<and> \<not> ok resp \<and> \<not> gone resp"
  then show "count (failures (fst (validateMention now resp st))) (source m)
          = count (failures st) (source m) + 1"
    by (simp add: validateMention_failure count_def)
next
  assume "ok resp \<or> gone resp"
  then show "failures (fst (validateMention now resp st)) = failures st"
    by (cases rule: validateMention_cases [where st = st and resp = resp])
       (auto simp: validateMention_empty validateMention_ok validateMention_body_error
          validateMention_gone gone_not_ok)
qed

theorem failures_never_decrease_witness:
  "count (failures waiting) post
     \<le> count (failures (run (\<lambda>u. True) [] (\<lambda>b. [])
           [Tick 1 None, Submit 2 form_post ''source=x'', Tick 3 found] waiting)) post
   \<and> count (failures (fst (validateMention 1 None waiting))) post
       = count (failures waiting) post + 1
   \<and> failures (fst (validateMention 4 found (waiting\<lparr>failures := [post \<mapsto> 3]\<rparr>)))
       = [post \<mapsto> 3]"
  using
    failures_never_decrease [where st = waiting and s = post and canParse = "\<lambda>u. True"
      and allowed = "[]" and parse = "\<lambda>b. []"
      and evs = "[Tick 1 None, Submit 2 form_post ''source=x'', Tick 3 found]"
      and m = "\<lparr>source = post, target = page\<rparr>" and rest = "[]" and resp = None and now = 1]
    failures_never_decrease [where st = "waiting\<lparr>failures := [post \<mapsto> 3]\<rparr>"
      and resp = found and now = 4]
  by simp

subsection \<open>C9: identity is string equality\<close>

text \<open>
  C9: a queued mention \<open>q\<close> and a stored entry \<open>e\<close> whose source or target differs
  textually from that of \<open>m\<close> are other pairs everywhere: they are no duplicates of
  \<open>m\<close>, neither of them nor a failure count under another source string changes what
  \<^verbatim>\<open>isEnqueueable\<close> answers for \<open>m\<close>, verifying \<open>m\<close> leaves the entries of other pairs
  and the counts of other sources untouched, and over a store that holds only other
  pairs a 2xx or 410 verification of \<open>m\<close> appends a new entry. The witness takes the
  trailing-slash variant of the source.
\<close>

theorem identity_is_string_equality:
  assumes "source q \<noteq> source m \<or> target q \<noteq> target m"
    and "source e \<noteq> source m \<or> target e \<noteq> target m"
  shows "\<not> isDuplicate m q \<and> \<not> isDuplicate m e
       \<and> isEnqueueable now (st\<lparr>queue := q # queue st\<rparr>) m = isEnqueueable now st m
       \<and> isEnqueueable now (st\<lparr>webmentions := e # webmentions st\<rparr>) m = isEnqueueable now st m
       \<and> (s \<noteq> source m \<longrightarrow>
            isEnqueueable now (st\<lparr>failures := (failures st)(s \<mapsto> n)\<rparr>) m
              = isEnqueueable now st m)
       \<and> (queue st = m # rest \<longrightarrow>
            filter (\<lambda>x. \<not> isDuplicate m x) (webmentions (fst (validateMention now resp st)))
              = filter (\<lambda>x. \<not> isDuplicate m x) (webmentions st)
            \<and> (s \<noteq> source m \<longrightarrow>
                 failures (fst (validateMention now resp st)) s = failures st s))
       \<and> (queue st = m # rest \<and> (\<forall>x \<in> set (webmentions st). \<not> isDuplicate m x)
            \<and> ((ok resp \<and> Option.bind resp text_of \<noteq> None) \<or> gone resp) \<longrightarrow>
            (\<exists>new. webmentions (fst (validateMention now resp st)) = webmentions st @ [new]
                   \<and> source new = source m \<and> target new = target m))"
proof -
  have d: "\<not> isDuplicate m q" "\<not> isDuplicate m e"
    using assms by (auto simp: isDuplicate_def)
  have a: "isEnqueueable now (st\<lparr>queue := q # queue st\<rparr>) m = isEnqueueable now st m"
    using d by (simp add: isEnqueueable_def split: option.splits)
  have b: "isEnqueueable now (st\<lparr>webmentions := e # webmentions st\<rparr>) m = isEnqueueable now st m"
    using d by (simp add: isEnqueueable_def split: option.splits)
  have c: "s \<noteq> source m \<Longrightarrow>
            isEnqueueable now (st\<lparr>failures := (failures st)(s \<mapsto> n)\<rparr>) m
              = isEnqueueable now st m"
    by (simp add: isEnqueueable_def split: option.splits)
  have f: "queue st = m # rest \<Longrightarrow> s \<noteq> source m \<Longrightarrow>
            failures (fst (validateMention now resp st)) s = failures st s"
    by (cases rule: validateMention_cases [where st = st and resp = resp])
       (auto simp: validateMention_ok validateMention_body_error
          validateMention_gone validateMention_failure)
  have g: "queue st = m # rest \<and> (\<forall>x \<in> set (webmentions st). \<not> isDuplicate m x)
            \<and> ((ok resp \<and> Option.bind resp text_of \<noteq> None) \<or> gone resp) \<Longrightarrow>
            (\<exists>new. webmentions (fst (validateMention now resp st)) = webmentions st @ [new]
                   \<and> source new = source m \<and> target new = target m)"
  proof -
    assume h: "queue st = m # rest \<and> (\<forall>x \<in> set (webmentions st). \<not> isDuplicate m x)
            \<and> ((ok resp \<and> Option.bind resp text_of \<noteq> None) \<or> gone resp)"
    then have n: "find (isDuplicate m) (webmentions st) = None"
      by (simp add: find_None_mem)
    from h have "(ok resp \<and> Option.bind resp text_of \<noteq> None) \<or> gone resp" by simp
    then show ?thesis
    proof (cases rule: stored_cases)
      case (ok data)
      with h n show ?thesis by (simp add: validateMention_ok store_ok_def)
    next
      case gone
      with h n show ?thesis by (simp add: validateMention_gone store_gone_def)
    qed
  qed
  show ?thesis
    using d a b c f g validateMention_others [of st m rest now resp] by blast
qed

theorem identity_is_string_equality_witness:
  "\<not> isDuplicate \<lparr>source = post, target = page\<rparr> \<lparr>source = post_slash, target = page\<rparr>
   \<and> isEnqueueable 5 (idle\<lparr>queue := [\<lparr>source = post_slash, target = page\<rparr>]\<rparr>)
        \<lparr>source = post, target = page\<rparr> = isEnqueueable 5 idle \<lparr>source = post, target = page\<rparr>
   \<and> isEnqueueable 5 (idle\<lparr>webmentions := [\<lparr>source = post_slash, target = page, validated = True,
          mentioned = Some True, isMentioned = None, deleted = None, validatedAt = 0\<rparr>]\<rparr>)
        \<lparr>source = post, target = page\<rparr> = isEnqueueable 5 idle \<lparr>source = post, target = page\<rparr>
   \<and> isEnqueueable 5 (idle\<lparr>failures := [post_slash \<mapsto> 9]\<rparr>)
        \<lparr>source = post, target = page\<rparr> = isEnqueueable 5 idle \<lparr>source = post, target = page\<rparr>
   \<and> (\<exists>new. webmentions (fst (validateMention 5 found
          (waiting\<lparr>webmentions := [\<lparr>source = post_slash, target = page, validated = True,
             mentioned = Some True, isMentioned = None, deleted = None, validatedAt = 0\<rparr>]\<rparr>)))
        = [\<lparr>source = post_slash, target = page, validated = True,
             mentioned = Some True, isMentioned = None, deleted = None, validatedAt = 0\<rparr>, new]
        \<and> source new = post \<and> target new = page)"
  using
    identity_is_string_equality [where q = "\<lparr>source = post_slash, target = page\<rparr>"
      and m = "\<lparr>source = post, target = page\<rparr>"
      and e = "\<lparr>source = post_slash, target = page, validated = True,
          mentioned = Some True, isMentioned = None, deleted = None, validatedAt = 0\<rparr>"
      and st = idle and now = 5 and s = post_slash and n = 9]
    identity_is_string_equality [where q = "\<lparr>source = post_slash, target = page\<rparr>"
      and m = "\<lparr>source = post, target = page\<rparr>"
      and e = "\<lparr>source = post_slash, target = page, validated = True,
          mentioned = Some True, isMentioned = None, deleted = None, validatedAt = 0\<rparr>"
      and st = "waiting\<lparr>webmentions := [\<lparr>source = post_slash, target = page, validated = True,
             mentioned = Some True, isMentioned = None, deleted = None, validatedAt = 0\<rparr>]\<rparr>"
      and now = 5 and resp = found and rest = "[]"]
  by (simp add: isDuplicate_def)

subsection \<open>C10: an empty form parameter\<close>

text \<open>
  C10: a body whose \<^verbatim>\<open>source\<close> or \<^verbatim>\<open>target\<close> parameter is bound to the empty string is
  treated as a body that lacks the parameter: in both cases \<^verbatim>\<open>toMention\<close> returns
  \<^verbatim>\<open>null\<close> and the request is answered with 400, leaving the state as it was.
\<close>

theorem empty_field_is_missing:
  "get (parse body) ''source'' = None \<or> get (parse body) ''source'' = Some []
   \<or> get (parse body) ''target'' = None \<or> get (parse body) ''target'' = Some []
   \<Longrightarrow> toMention parse body = None
       \<and> handler canParse allowed parse now r body st = (400, st)"
proof -
  assume a: "get (parse body) ''source'' = None \<or> get (parse body) ''source'' = Some []
   \<or> get (parse body) ''target'' = None \<or> get (parse body) ''target'' = Some []"
  then have "falsy (get (parse body) ''source'') \<or> falsy (get (parse body) ''target'')"
    by auto
  then have n: "toMention parse body = None"
    by (rule toMention_None)
  then show ?thesis
    by (simp add: handler_def isValid_total)
qed

theorem empty_field_is_missing_witness:
  "toMention (\<lambda>b. [(''source'', ''''), (''target'', page)]) ''source=&target=https://b.example/page'' = None
   \<and> handler (\<lambda>u. True) [] (\<lambda>b. [(''source'', ''''), (''target'', page)]) 0 form_post
        ''source=&target=https://b.example/page''
        \<lparr>queue = [], webmentions = [], failures = Map.empty, writes = []\<rparr>
      = (400, \<lparr>queue = [], webmentions = [], failures = Map.empty, writes = []\<rparr>)
   \<and> toMention (\<lambda>b. [(''source'', post)]) ''source=https://a.example/post'' = None"
  using
    empty_field_is_missing [of "\<lambda>b. [(''source'', ''''), (''target'', page)]"
      "''source=&target=https://b.example/page''" "\<lambda>u. True" "[]" 0 form_post
      "\<lparr>queue = [], webmentions = [], failures = Map.empty, writes = []\<rparr>"]
    empty_field_is_missing [of "\<lambda>b. [(''source'', post)]" "''source=https://a.example/post''"]
  by simp

end
